theory Spec2Isabelle
  imports Complex_Main "HOL-Library.Multiset"
begin

section \<open>JavaScript values used by the batch processor\<close>

text \<open>
  The processor of \<^verbatim>\<open>src/main.ts\<close> is TypeScript; at run time its data are JavaScript
  values. A number is \<open>NaN\<close>, an infinity or a finite value; finite values are kept as exact
  rationals (the rounding of IEEE doubles is not modelled, every numeral used below is an
  exactly representable integer). A response body is any JSON value, \<open>JUndefined\<close> when the
  property is absent. An object is an association list whose first binding of a key is the
  property's value.
\<close>

datatype jsnum = NaN | Fin rat | PosInf | NegInf

datatype jsval =
    JUndefined
  | JNull
  | JBool bool
  | JNum jsnum
  | JStr string
  | JArr "jsval list"
  | JObj "(string \<times> jsval) list"

text \<open>ToBoolean: what \<^verbatim>\<open>&&\<close> and \<^verbatim>\<open>||\<close> test.\<close>

fun truthy_num :: "jsnum \<Rightarrow> bool" where
  "truthy_num NaN = False"
| "truthy_num (Fin r) = (r \<noteq> 0)"
| "truthy_num PosInf = True"
| "truthy_num NegInf = True"

fun truthy :: "jsval \<Rightarrow> bool" where
  "truthy JUndefined = False"
| "truthy JNull = False"
| "truthy (JBool b) = b"
| "truthy (JNum n) = truthy_num n"
| "truthy (JStr s) = (s \<noteq> [])"
| "truthy (JArr vs) = True"
| "truthy (JObj kvs) = True"

text \<open>
  \<^verbatim>\<open>v?.k\<close> for the two keys the processor reads (\<^verbatim>\<open>error\<close>, \<^verbatim>\<open>message\<close>): \<^verbatim>\<open>undefined\<close> on
  \<^verbatim>\<open>undefined\<close> and \<^verbatim>\<open>null\<close> (the optional chain), \<^verbatim>\<open>undefined\<close> on a primitive or an array
  (no such property), the property's value on an object.
\<close>

fun opt_get :: "jsval \<Rightarrow> string \<Rightarrow> jsval" where
  "opt_get (JObj kvs) k = (case map_of kvs k of None \<Rightarrow> JUndefined | Some v \<Rightarrow> v)"
| "opt_get v k = JUndefined"

fun jsneg :: "jsnum \<Rightarrow> jsnum" where
  "jsneg NaN = NaN"
| "jsneg (Fin r) = Fin (- r)"
| "jsneg PosInf = NegInf"
| "jsneg NegInf = PosInf"

text \<open>\<^verbatim>\<open>x * 1000\<close> on a number.\<close>

fun times1000 :: "jsnum \<Rightarrow> jsnum" where
  "times1000 NaN = NaN"
| "times1000 (Fin r) = Fin (r * 1000)"
| "times1000 PosInf = PosInf"
| "times1000 NegInf = NegInf"

subsection \<open>\<^verbatim>\<open>Number(...)\<close> of a header value\<close>

text \<open>
  \<^verbatim>\<open>graphError.headers?.get('Retry-After')\<close> is \<^verbatim>\<open>undefined\<close> when the error has no headers,
  \<^verbatim>\<open>null\<close> when the header is not among them, and a byte string otherwise.
\<close>

datatype header_value = HUndefined | HNull | HString string

definition is_space :: "char \<Rightarrow> bool" where
  "is_space c = (of_char c \<in> set [9, 10, 11, 12, 13, 32, 160 :: nat])"

definition trim :: "string \<Rightarrow> string" where
  "trim s = rev (dropWhile is_space (rev (dropWhile is_space s)))"

definition is_digit :: "char \<Rightarrow> bool" where
  "is_digit c = (48 \<le> (of_char c :: nat) \<and> (of_char c :: nat) \<le> 57)"

definition hex_digit :: "char \<Rightarrow> nat option" where
  "hex_digit c =
     (let n = (of_char c :: nat) in
      if 48 \<le> n \<and> n \<le> 57 then Some (n - 48)
      else if 65 \<le> n \<and> n \<le> 70 then Some (n - 55)
      else if 97 \<le> n \<and> n \<le> 102 then Some (n - 87)
      else None)"

text \<open>The value of a digit string in a base; \<open>None\<close> when a character is no digit of that base.\<close>

fun digits_value :: "nat \<Rightarrow> string \<Rightarrow> nat \<Rightarrow> nat option" where
  "digits_value base [] acc = Some acc"
| "digits_value base (c # cs) acc =
     (case hex_digit c of
        None \<Rightarrow> None
      | Some d \<Rightarrow> if d < base then digits_value base cs (base * acc + d) else None)"

definition nonempty_digits :: "nat \<Rightarrow> string \<Rightarrow> nat option" where
  "nonempty_digits base s = (if s = [] then None else digits_value base s 0)"

text \<open>ExponentPart: nothing, or \<^verbatim>\<open>e\<close>/\<^verbatim>\<open>E\<close>, an optional sign and at least one digit.\<close>

definition exponent_part :: "string \<Rightarrow> int option" where
  "exponent_part s =
     (case s of
        [] \<Rightarrow> Some 0
      | c # t \<Rightarrow>
          if c = CHR ''e'' \<or> c = CHR ''E'' then
            (case t of
               [] \<Rightarrow> None
             | d # u \<Rightarrow>
                 if d = CHR ''+'' then map_option int (nonempty_digits 10 u)
                 else if d = CHR ''-'' then map_option (\<lambda>n. - int n) (nonempty_digits 10 u)
                 else map_option int (nonempty_digits 10 t))
          else None)"

text \<open>
  StrUnsignedDecimalLiteral: \<^verbatim>\<open>Infinity\<close>, or digits with an optional fraction and an
  optional exponent, with a digit before or after the point.
\<close>

definition unsigned_decimal :: "string \<Rightarrow> jsnum" where
  "unsigned_decimal s =
     (if s = ''Infinity'' then PosInf
      else
        let ip = takeWhile is_digit s;
            r1 = dropWhile is_digit s;
            dot = (r1 \<noteq> [] \<and> hd r1 = CHR ''.'');
            fp = (if dot then takeWhile is_digit (tl r1) else []);
            r2 = (if dot then dropWhile is_digit (tl r1) else r1)
        in if ip = [] \<and> fp = [] then NaN
           else
             (case (digits_value 10 (ip @ fp) 0, exponent_part r2) of
                (Some m, Some ex) \<Rightarrow>
                  Fin (if 0 \<le> ex
                       then of_nat m * 10 ^ nat ex / 10 ^ length fp
                       else of_nat m / 10 ^ (length fp + nat (- ex)))
              | _ \<Rightarrow> NaN))"

text \<open>NonDecimalIntegerLiteral: \<^verbatim>\<open>0x\<close>, \<^verbatim>\<open>0o\<close>, \<^verbatim>\<open>0b\<close> (either case) and digits of that base.\<close>

definition radix_prefix :: "string \<Rightarrow> (nat \<times> string) option" where
  "radix_prefix s =
     (case s of
        z # p # t \<Rightarrow>
          if z \<noteq> CHR ''0'' then None
          else if p = CHR ''x'' \<or> p = CHR ''X'' then Some (16, t)
          else if p = CHR ''o'' \<or> p = CHR ''O'' then Some (8, t)
          else if p = CHR ''b'' \<or> p = CHR ''B'' then Some (2, t)
          else None
      | _ \<Rightarrow> None)"

definition StringToNumber :: "string \<Rightarrow> jsnum" where
  "StringToNumber s =
     (let t = trim s in
      if t = [] then Fin 0
      else
        (case radix_prefix t of
           Some (base, ds) \<Rightarrow>
             (case nonempty_digits base ds of None \<Rightarrow> NaN | Some n \<Rightarrow> Fin (of_nat n))
         | None \<Rightarrow>
             if hd t = CHR ''+'' then unsigned_decimal (tl t)
             else if hd t = CHR ''-'' then jsneg (unsigned_decimal (tl t))
             else unsigned_decimal t))"

fun Number_of :: "header_value \<Rightarrow> jsnum" where
  "Number_of HUndefined = NaN"
| "Number_of HNull = Fin 0"
| "Number_of (HString s) = StringToNumber s"

subsection \<open>Template literals: a status code as decimal text\<close>

fun digits_of_nat :: "nat \<Rightarrow> string" where
  "digits_of_nat n =
     (if n < 10 then [''0123456789'' ! n]
      else digits_of_nat (n div 10) @ [''0123456789'' ! (n mod 10)])"

definition show_int :: "int \<Rightarrow> string" where
  "show_int i = (if i < 0 then CHR ''-'' # digits_of_nat (nat (- i)) else digits_of_nat (nat i))"

subsection \<open>\<^verbatim>\<open>Array.prototype.slice\<close> and indexing\<close>

text \<open>
  A negative bound counts from the end of the array; both bounds are clamped to the
  array. Reading an index outside the array yields \<^verbatim>\<open>undefined\<close>, here \<open>None\<close>.
\<close>

definition slice :: "'a list \<Rightarrow> int \<Rightarrow> int \<Rightarrow> 'a list" where
  "slice xs start fin =
     (let len = int (length xs);
          k = (if start < 0 then max (len + start) 0 else min start len);
          final = (if fin < 0 then max (len + fin) 0 else min fin len)
      in take (nat (final - k)) (drop (nat k) xs))"

definition index_of :: "'a list \<Rightarrow> nat \<Rightarrow> 'a option" where
  "index_of xs i = (if i < length xs then Some (xs ! i) else None)"

section \<open>The data of \<^verbatim>\<open>src/main.ts\<close>\<close>

datatype http_method = GET | POST | PATCH | DELETE

text \<open>
  What \<^verbatim>\<open>requestBuilder\<close> returns (\<^verbatim>\<open>Omit<BatchRequest, 'id'>\<close>), and the request with its
  \<^verbatim>\<open>id\<close> (\<^verbatim>\<open>method\<close> and \<^verbatim>\<open>id\<close> are written \<open>method'\<close> and \<open>id'\<close>). An absent \<^verbatim>\<open>body\<close> is \<open>JUndefined\<close>, absent \<^verbatim>\<open>headers\<close> are \<open>None\<close>.
\<close>

record request_fields =
  method' :: http_method
  url :: string
  body :: jsval
  headers :: "(string \<times> string) list option"

record batch_request = request_fields +
  id' :: string

text \<open>\<^verbatim>\<open>BatchResponse\<close>: \<^verbatim>\<open>id\<close>, \<^verbatim>\<open>status\<close> and the optional \<^verbatim>\<open>body\<close>.\<close>

record batch_response =
  resp_id :: string
  status :: int
  resp_body :: jsval

text \<open>
  \<^verbatim>\<open>BatchResult\<close>. An entry pairs the \<^verbatim>\<open>request\<close> (what \<^verbatim>\<open>originalItems[index]\<close> read:
  \<open>None\<close> is \<^verbatim>\<open>undefined\<close>) with the \<^verbatim>\<open>response\<close> body, or with the \<^verbatim>\<open>error\<close>.
\<close>

record 'a batch_result =
  successful :: "('a option \<times> jsval) list"
  failed :: "('a option \<times> jsval) list"

text \<open>
  The value caught by \<^verbatim>\<open>catch (error)\<close>, read as a \<^verbatim>\<open>GraphError\<close>: its \<^verbatim>\<open>statusCode\<close>
  (\<open>None\<close> when the thrown value has none), its \<^verbatim>\<open>headers\<close> with their \<^verbatim>\<open>get\<close>, and
  the text that \<^verbatim>\<open>${graphError}\<close> produces.
\<close>

record graph_error =
  statusCode :: "int option"
  err_headers :: "(string \<Rightarrow> string option) option"
  err_text :: string

text \<open>
  The five numbers of \<^verbatim>\<open>this.options\<close>, as the constructor's parameter type declares them:
  all present, and whole numbers, as the counts and durations they stand for. The methods
  are modelled on such a configuration; the constructor, further down, on what a caller
  can pass at run time.
\<close>

record options =
  batchSize :: int
  concurrency :: int
  maxRetries :: int
  retryDelay :: int
  queueInterval :: int

text \<open>
  The effects of a run: how many identifiers \<^verbatim>\<open>uuid4()\<close> has handed out, the request
  lists posted to \<^verbatim>\<open>/$batch\<close> in order, and the delays (in milliseconds) handed to
  \<^verbatim>\<open>setTimeout\<close> in order. Log lines are not recorded: nothing reads them.
\<close>

record world =
  next_uuid :: nat
  posted :: "batch_request list list"
  timers :: "jsnum list"

text \<open>
  The collaborators are parameters. \<open>client hist reqs\<close> is what
  \<^verbatim>\<open>client.api('/$batch').post({requests: reqs})\<close> does after the posts \<open>hist\<close>: it resolves
  with the list \<^verbatim>\<open>response.responses\<close> (\<open>Inr\<close>), or the \<^verbatim>\<open>try\<close> block throws before that list is
  reconciled (\<open>Inl\<close>, with the value caught). On a list of the declared type
  \<^verbatim>\<open>processBatchResponse\<close> itself throws nothing. \<open>uuid4 k\<close> is the identifier returned by the
  \<open>k\<close>-th call of \<^verbatim>\<open>uuid4()\<close>. The caller's \<^verbatim>\<open>requestBuilder\<close> is taken to be a function that
  returns for every item, as the source takes it (it is called outside the \<^verbatim>\<open>try\<close>).
\<close>

type_synonym client = "batch_request list list \<Rightarrow> batch_request list \<Rightarrow> graph_error + batch_response list"

section \<open>\<^verbatim>\<open>chunkArray\<close>\<close>

text \<open>
  The \<^verbatim>\<open>for\<close> loop of \<^verbatim>\<open>chunkArray\<close>, with its counter \<open>i\<close> and the array \<open>chunks\<close> it pushes
  to. The loop need not end, so it is a partial function: \<open>None\<close> is a run that never
  returns.
\<close>

partial_function (option) chunk_loop ::
  "'a list \<Rightarrow> int \<Rightarrow> int \<Rightarrow> 'a list list \<Rightarrow> 'a list list option" where
  "chunk_loop array size' i chunks =
     (if i < int (length array)
      then chunk_loop array size' (i + size') (chunks @ [slice array i (i + size')])
      else Some chunks)"

declare chunk_loop.simps [code]

definition chunkArray :: "'a list \<Rightarrow> int \<Rightarrow> 'a list list option" where
  "chunkArray array size' = chunk_loop array size' 0 []"

section \<open>\<^verbatim>\<open>processBatchResponse\<close>\<close>

text \<open>\<^verbatim>\<open>response.body?.error?.message || `Unknown error (Status: ${response.status})`\<close>\<close>

definition failure_error :: "batch_response \<Rightarrow> jsval" where
  "failure_error response =
     (let message = opt_get (opt_get (resp_body response) ''error'') ''message''
      in if truthy message then message
         else JStr (''Unknown error (Status: '' @ show_int (status response) @ '')''))"

text \<open>\<^verbatim>\<open>responses.forEach((response, index) => ...)\<close>, pushing to \<open>results\<close>.\<close>

fun forEach_response ::
  "batch_response list \<Rightarrow> nat \<Rightarrow> 'a list \<Rightarrow> 'a batch_result \<Rightarrow> 'a batch_result" where
  "forEach_response [] index originalItems results = results"
| "forEach_response (response # rest) index originalItems results =
     forEach_response rest (Suc index) originalItems
       (if 200 \<le> status response \<and> status response < 300 \<and> truthy (resp_body response)
        then results\<lparr>successful :=
               successful results @ [(index_of originalItems index, resp_body response)]\<rparr>
        else results\<lparr>failed :=
               failed results @ [(index_of originalItems index, failure_error response)]\<rparr>)"

definition processBatchResponse :: "batch_response list \<Rightarrow> 'a list \<Rightarrow> 'a batch_result" where
  "processBatchResponse responses originalItems =
     forEach_response responses 0 originalItems \<lparr>successful = [], failed = []\<rparr>"

section \<open>\<^verbatim>\<open>processSingleBatchWithRetry\<close>\<close>

text \<open>
  \<^verbatim>\<open>items.map((item) => ({ id: uuid4(), ...requestBuilder(item) }))\<close>: \<open>with_id\<close> is the
  object literal, \<open>build_requests\<close> the \<^verbatim>\<open>map\<close>, which draws one identifier per item.
\<close>

definition with_id :: "string \<Rightarrow> request_fields \<Rightarrow> batch_request" where
  "with_id fresh built =
     \<lparr>method' = method' built, url = url built, body = body built,
      headers = headers built, id' = fresh\<rparr>"

fun build_requests ::
  "(nat \<Rightarrow> string) \<Rightarrow> ('a \<Rightarrow> request_fields) \<Rightarrow> 'a list \<Rightarrow> world
     \<Rightarrow> batch_request list \<times> world" where
  "build_requests uuid4 requestBuilder [] s = ([], s)"
| "build_requests uuid4 requestBuilder (item # items) s =
     (let fresh = uuid4 (next_uuid s);
          s1 = s\<lparr>next_uuid := Suc (next_uuid s)\<rparr>;
          built = requestBuilder item;
          (rest, s2) = build_requests uuid4 requestBuilder items s1
      in (with_id fresh built # rest, s2))"

text \<open>\<^verbatim>\<open>Number(Number(graphError.headers?.get('Retry-After')) || this.options.retryDelay)\<close>\<close>

definition retry_after_header :: "graph_error \<Rightarrow> header_value" where
  "retry_after_header graphError =
     (case err_headers graphError of
        None \<Rightarrow> HUndefined
      | Some get \<Rightarrow> (case get ''Retry-After'' of None \<Rightarrow> HNull | Some v \<Rightarrow> HString v))"

definition retryAfter :: "options \<Rightarrow> graph_error \<Rightarrow> jsnum" where
  "retryAfter opts graphError =
     (let hint = Number_of (retry_after_header graphError)
      in if truthy_num hint then hint else Fin (of_int (retryDelay opts)))"

text \<open>The object returned when the batch is given up: every item failed with the same text.\<close>

definition all_failed :: "'a list \<Rightarrow> graph_error \<Rightarrow> 'a batch_result" where
  "all_failed items graphError =
     \<lparr>successful = [],
      failed = map (\<lambda>item. (Some item, JStr (''Batch request failed: '' @ err_text graphError))) items\<rparr>"

text \<open>
  One call builds the requests, posts them and either reconciles the responses, or, in
  the \<^verbatim>\<open>catch\<close> block, waits and calls itself with \<open>attempt + 1\<close>, or gives the batch up.
\<close>

function processSingleBatchWithRetry ::
  "client \<Rightarrow> (nat \<Rightarrow> string) \<Rightarrow> options \<Rightarrow> 'a list \<Rightarrow> ('a \<Rightarrow> request_fields) \<Rightarrow> int \<Rightarrow> world
     \<Rightarrow> 'a batch_result \<times> world" where
  "processSingleBatchWithRetry client uuid4 opts items requestBuilder attempt s =
     (let built = build_requests uuid4 requestBuilder items s;
          batchRequests = fst built;
          s1 = snd built;
          s2 = s1\<lparr>posted := posted s1 @ [batchRequests]\<rparr>
      in case client (posted s1) batchRequests of
           Inr responses \<Rightarrow> (processBatchResponse responses items, s2)
         | Inl graphError \<Rightarrow>
             if statusCode graphError = Some 429 \<and> attempt < maxRetries opts
             then processSingleBatchWithRetry client uuid4 opts items requestBuilder (attempt + 1)
                    (s2\<lparr>timers := timers s2 @ [times1000 (retryAfter opts graphError)]\<rparr>)
             else (all_failed items graphError, s2))"
  by pat_completeness auto
termination
  by (relation "measure (\<lambda>(client, uuid4, opts, items, requestBuilder, attempt, s).
                           nat (maxRetries opts - attempt))") auto

declare processSingleBatchWithRetry.simps [simp del]

section \<open>\<^verbatim>\<open>processBatch\<close>\<close>

text \<open>
  \<^verbatim>\<open>for (const batch of batches) { await queue.add(async () => {...}) }\<close>: the promise of
  \<^verbatim>\<open>queue.add\<close> settles when its task has run, and the loop awaits it before it adds the
  next batch, so the batches run one after the other; \<^verbatim>\<open>queue.onIdle()\<close> then finds the
  queue empty. The queue is the library \<^verbatim>\<open>p-queue\<close>, which is not part of the source: the
  model is of the runs in which \<^verbatim>\<open>new PQueue\<close> accepts \<^verbatim>\<open>concurrency\<close> and \<^verbatim>\<open>queueInterval\<close>,
  and with one task in the queue at a time neither of the two changes what is computed.
  \<open>None\<close> is a run in which \<^verbatim>\<open>chunkArray\<close> never returns.
\<close>

fun run_batches ::
  "client \<Rightarrow> (nat \<Rightarrow> string) \<Rightarrow> options \<Rightarrow> ('a \<Rightarrow> request_fields) \<Rightarrow> 'a list list
     \<Rightarrow> 'a batch_result \<Rightarrow> world \<Rightarrow> 'a batch_result \<times> world" where
  "run_batches client uuid4 opts requestBuilder [] results s = (results, s)"
| "run_batches client uuid4 opts requestBuilder (batch # batches) results s =
     (let done = processSingleBatchWithRetry client uuid4 opts batch requestBuilder 1 s;
          batchResult = fst done
      in run_batches client uuid4 opts requestBuilder batches
           (results\<lparr>successful := successful results @ successful batchResult,
                    failed := failed results @ failed batchResult\<rparr>)
           (snd done))"

definition processBatch ::
  "client \<Rightarrow> (nat \<Rightarrow> string) \<Rightarrow> options \<Rightarrow> 'a list \<Rightarrow> ('a \<Rightarrow> request_fields) \<Rightarrow> world
     \<Rightarrow> ('a batch_result \<times> world) option" where
  "processBatch client uuid4 opts requests requestBuilder s =
     (case chunkArray requests (batchSize opts) of
        None \<Rightarrow> None
      | Some batches \<Rightarrow>
          Some (run_batches client uuid4 opts requestBuilder batches
                  \<lparr>successful = [], failed = []\<rparr> s))"

section \<open>The constructor\<close>

text \<open>
  At run time the \<^verbatim>\<open>options\<close> argument is an object whose properties may be missing (the
  README passes \<^verbatim>\<open>{ batchSize: 20, concurrency: 2 }\<close>), or no argument at all. A missing
  property is \<open>None\<close>.
\<close>

record options_object =
  batchSize' :: "int option"
  concurrency' :: "int option"
  maxRetries' :: "int option"
  retryDelay' :: "int option"
  queueInterval' :: "int option"

datatype js_error = ReferenceError

text \<open>
  The default initialiser of the parameter \<^verbatim>\<open>options\<close> is evaluated when no argument is
  passed, and it reads \<^verbatim>\<open>options.retryDelay\<close>. While its own initialiser runs a parameter
  is not yet initialised, and reading it throws a \<^verbatim>\<open>ReferenceError\<close>.
\<close>

datatype 'a binding = Uninitialized | Initialized 'a

definition read_binding :: "'a binding \<Rightarrow> js_error + 'a" where
  "read_binding b = (case b of Uninitialized \<Rightarrow> Inl ReferenceError | Initialized v \<Rightarrow> Inr v)"

text \<open>
  \<^verbatim>\<open>{ batchSize: 20, concurrency: 2, maxRetries: 3,
     retryDelay: options.retryDelay ?? 0 / 1000 ?? 30, queueInterval: 1000 }\<close>
  in a scope where the parameter \<^verbatim>\<open>options\<close> has the given binding; \<^verbatim>\<open>0 / 1000\<close> is \<open>0\<close>, which
  is not nullish, so \<open>30\<close> is never reached.
\<close>

definition default_options :: "options_object binding \<Rightarrow> js_error + options_object" where
  "default_options options_binding =
     (case read_binding options_binding of
        Inl e \<Rightarrow> Inl e
      | Inr opts \<Rightarrow>
          Inr \<lparr>batchSize' = Some 20, concurrency' = Some 2, maxRetries' = Some 3,
               retryDelay' = (case retryDelay' opts of Some d \<Rightarrow> Some d | None \<Rightarrow> Some 0),
               queueInterval' = Some 1000\<rparr>)"

text \<open>
  \<^verbatim>\<open>new MsGraphBatchProcessor(client, options)\<close>: the value left in \<^verbatim>\<open>this.options\<close>
  (\<^verbatim>\<open>{...options}\<close>, a copy of the argument), or the error thrown.
\<close>

definition new_MsGraphBatchProcessor :: "options_object option \<Rightarrow> js_error + options_object" where
  "new_MsGraphBatchProcessor arg =
     (case arg of
        None \<Rightarrow> default_options Uninitialized
      | Some opts \<Rightarrow> Inr opts)"

section \<open>The specification's reading of the operations\<close>

text \<open>
  The Outcome of the specification, and the outcome of one position: a success when the
  status is in \<open>[200, 300)\<close> and the body is truthy, else a failure with the body's embedded
  error message when that is truthy and a text with the status code otherwise.
\<close>

datatype 'b outcome = Success 'b jsval | Failure 'b jsval

definition embedded_message :: "jsval \<Rightarrow> jsval option" where
  "embedded_message b =
     (case b of
        JObj kvs \<Rightarrow>
          (case map_of kvs ''error'' of
             Some (JObj e) \<Rightarrow>
               (case map_of e ''message'' of
                  Some m \<Rightarrow> if truthy m then Some m else None
                | None \<Rightarrow> None)
           | _ \<Rightarrow> None)
      | _ \<Rightarrow> None)"

definition outcome_of :: "batch_response \<Rightarrow> 'b \<Rightarrow> 'b outcome" where
  "outcome_of response item =
     (if status response \<in> {200..<300} \<and> truthy (resp_body response)
      then Success item (resp_body response)
      else Failure item
             (case embedded_message (resp_body response) of
                Some m \<Rightarrow> m
              | None \<Rightarrow> JStr (''Unknown error (Status: '' @ show_int (status response) @ '')'')))"

fun successes :: "'b outcome list \<Rightarrow> ('b \<times> jsval) list" where
  "successes [] = []"
| "successes (Success item b # os) = (item, b) # successes os"
| "successes (Failure item m # os) = successes os"

fun failures :: "'b outcome list \<Rightarrow> ('b \<times> jsval) list" where
  "failures [] = []"
| "failures (Success item b # os) = failures os"
| "failures (Failure item m # os) = (item, m) # failures os"

text \<open>
  The groups taken one at a time in chunk order: each group is run to its end in the
  world the previous group left, and yields its result together with the request lists
  it posted.
\<close>

fun groups_in_order ::
  "client \<Rightarrow> (nat \<Rightarrow> string) \<Rightarrow> options \<Rightarrow> ('a \<Rightarrow> request_fields) \<Rightarrow> 'a list list \<Rightarrow> world
     \<Rightarrow> ('a batch_result \<times> batch_request list list) list \<times> world" where
  "groups_in_order client uuid4 opts requestBuilder [] s = ([], s)"
| "groups_in_order client uuid4 opts requestBuilder (g # gs) s =
     (let done = processSingleBatchWithRetry client uuid4 opts g requestBuilder 1 s;
          later = groups_in_order client uuid4 opts requestBuilder gs (snd done)
      in ((fst done, drop (length (posted s)) (posted (snd done))) # fst later, snd later))"

text \<open>
  The outcomes of a response list read against an item list by position, counting from
  index \<open>i\<close>; an index beyond the items reads \<open>None\<close>.
\<close>

definition outcomes_from :: "nat \<Rightarrow> batch_response list \<Rightarrow> 'a list \<Rightarrow> 'a option outcome list" where
  "outcomes_from i rs items =
     map (\<lambda>(k, r). outcome_of r (index_of items k)) (zip [i ..< i + length rs] rs)"

fun outcome_item :: "'b outcome \<Rightarrow> 'b" where
  "outcome_item (Success item b) = item"
| "outcome_item (Failure item m) = item"

text \<open>
  The world after one attempt on \<open>items\<close> has drawn its identifiers and posted its request
  list. \<open>attempt_requests \<dots> first k\<close> is the request list of the \<open>k\<close>-th attempt (from
  \<open>0\<close>) of a group whose first attempt starts at draw \<open>first\<close>: every attempt draws one
  new identifier per item.
\<close>

definition after_post :: "(nat \<Rightarrow> string) \<Rightarrow> ('a \<Rightarrow> request_fields) \<Rightarrow> 'a list \<Rightarrow> world \<Rightarrow> world" where
  "after_post uuid4 requestBuilder items s =
     s\<lparr>next_uuid := next_uuid s + length items,
       posted := posted s @ [fst (build_requests uuid4 requestBuilder items s)]\<rparr>"

definition attempt_requests ::
  "(nat \<Rightarrow> string) \<Rightarrow> ('a \<Rightarrow> request_fields) \<Rightarrow> 'a list \<Rightarrow> nat \<Rightarrow> nat \<Rightarrow> batch_request list" where
  "attempt_requests uuid4 requestBuilder items first k =
     map2 (\<lambda>j item. with_id (uuid4 j) (requestBuilder item))
       [first + k * length items ..< first + Suc k * length items] items"

text \<open>A result accounts for a list of items: one entry per item, and the same items.\<close>

definition accounts_for :: "'a batch_result \<Rightarrow> 'a list \<Rightarrow> bool" where
  "accounts_for result items \<longleftrightarrow>
     length (successful result) + length (failed result) = length items
     \<and> mset (map fst (successful result)) + mset (map fst (failed result)) = mset (map Some items)"

section \<open>Sample inputs\<close>

text \<open>Concrete collaborators and configurations, used to run the operations.\<close>

definition sample_options :: options where
  "sample_options = \<lparr>batchSize = 2, concurrency = 2, maxRetries = 3, retryDelay = 1000, queueInterval = 1000\<rparr>"

definition sample_builder :: "nat \<Rightarrow> request_fields" where
  "sample_builder n = \<lparr>method' = GET, url = ''/users/'' @ digits_of_nat n, body = JUndefined, headers = None\<rparr>"

definition sample_uuid :: "nat \<Rightarrow> string" where
  "sample_uuid k = ''id-'' @ replicate k (CHR ''x'')"

definition start :: world where
  "start = \<lparr>next_uuid = 0, posted = [], timers = []\<rparr>"

definition too_many_requests :: "string option \<Rightarrow> graph_error" where
  "too_many_requests hint =
     \<lparr>statusCode = Some 429,
      err_headers = Some (\<lambda>name. if name = ''Retry-After'' then hint else None),
      err_text = ''Error: Too Many Requests''\<rparr>"

definition always_limited :: "string option \<Rightarrow> client" where
  "always_limited hint hist reqs = Inl (too_many_requests hint)"

definition server_error :: graph_error where
  "server_error =
     \<lparr>statusCode = Some 500, err_headers = None, err_text = ''Error: Internal Server Error''\<rparr>"

definition always_down :: client where
  "always_down hist reqs = Inl server_error"

definition not_found :: batch_response where
  "not_found =
     \<lparr>resp_id = ''2'', status = 404,
      resp_body = JObj [(''error'', JObj [(''code'', JStr ''NotFound''), (''message'', JStr ''not found'')])]\<rparr>"

definition ok_user :: batch_response where
  "ok_user = \<lparr>resp_id = ''1'', status = 200, resp_body = JObj [(''displayName'', JStr ''Ada'')]\<rparr>"

definition ok_empty_text :: batch_response where
  "ok_empty_text = \<lparr>resp_id = ''1'', status = 200, resp_body = JStr ''''\<rparr>"

definition answer :: "batch_request \<Rightarrow> batch_response" where
  "answer r = (if url r = ''/users/8'' then not_found\<lparr>resp_id := id' r\<rparr> else ok_user\<lparr>resp_id := id' r\<rparr>)"

definition graph_service :: client where
  "graph_service hist reqs =
     (if hist = [] then Inl (too_many_requests (Some ''1'')) else Inr (map answer reqs))"

definition after_first_group :: world where
  "after_first_group =
     \<lparr>next_uuid = 4,
      posted = [[with_id ''id-'' (sample_builder 7), with_id ''id-x'' (sample_builder 8)],
                [with_id ''id-xx'' (sample_builder 7), with_id ''id-xxx'' (sample_builder 8)]],
      timers = [Fin 1000]\<rparr>"

definition after_second_group :: world where
  "after_second_group =
     \<lparr>next_uuid = 5,
      posted = [[with_id ''id-'' (sample_builder 7), with_id ''id-x'' (sample_builder 8)],
                [with_id ''id-xx'' (sample_builder 7), with_id ''id-xxx'' (sample_builder 8)],
                [with_id ''id-xxxx'' (sample_builder 9)]],
      timers = [Fin 1000]\<rparr>"

definition readme_options :: options_object where
  "readme_options =
     \<lparr>batchSize' = Some 20, concurrency' = Some 2, maxRetries' = None, retryDelay' = None,
      queueInterval' = None\<rparr>"

section \<open>Chunking\<close>

lemma slice_chunk:
  assumes "0 \<le> i" "0 < n"
  shows "slice xs i (i + n) = take (nat n) (drop (nat i) xs)"
  using assms by (auto simp: slice_def Let_def min_def)

lemma chunk_loop_never:
  assumes "chunk_loop xs n i cs = Some r"
  shows "\<not> (n \<le> 0 \<and> i < int (length xs))"
proof (rule chunk_loop.raw_induct
    [where P = "\<lambda>xs n i cs r. \<not> (n \<le> 0 \<and> i < int (length xs))", OF _ assms], goal_cases)
  case (1 loop array size' i chunks y)
  show ?case
  proof
    assume stuck: "size' \<le> 0 \<and> i < int (length array)"
    with 1(2) have "loop array size' (i + size') (chunks @ [slice array i (i + size')]) = Some y"
      by simp
    from 1(1) [OF this] stuck show False by simp
  qed
qed

lemma chunk_loop_None: "n \<le> 0 \<Longrightarrow> i < int (length xs) \<Longrightarrow> chunk_loop xs n i cs = None"
  using chunk_loop_never [of xs n i cs] by (cases "chunk_loop xs n i cs") auto

lemma chunk_loop_pos:
  assumes "0 < n" "0 \<le> i"
  shows "\<exists>ds. chunk_loop xs n i cs = Some (cs @ ds) \<and> concat ds = drop (nat i) xs
          \<and> (\<forall>d \<in> set (butlast ds). int (length d) = n)
          \<and> (ds \<noteq> [] \<longrightarrow> 0 < length (last ds) \<and> int (length (last ds)) \<le> n)"
  using assms
proof (induction "length xs - nat i" arbitrary: i cs rule: less_induct)
  case less
  show ?case
  proof (cases "i < int (length xs)")
    case False
    then show ?thesis using less.prems by (subst chunk_loop.simps) simp
  next
    case True
    let ?c = "slice xs i (i + n)"
    have c: "?c = take (nat n) (drop (nat i) xs)"
      using less.prems by (rule_tac slice_chunk) auto
    have "length xs - nat (i + n) < length xs - nat i"
      using True less.prems by linarith
    from less.hyps [OF this, of "cs @ [?c]"] less.prems
    obtain ds where ds: "chunk_loop xs n (i + n) (cs @ [?c]) = Some ((cs @ [?c]) @ ds)"
      "concat ds = drop (nat (i + n)) xs"
      "\<forall>d \<in> set (butlast ds). int (length d) = n"
      "ds \<noteq> [] \<longrightarrow> 0 < length (last ds) \<and> int (length (last ds)) \<le> n"
      by auto
    have eq: "chunk_loop xs n i cs = Some (cs @ (?c # ds))"
      using True ds(1) by (subst chunk_loop.simps) simp
    have nat_add: "nat (i + n) = nat n + nat i" using less.prems by linarith
    have cat: "concat (?c # ds) = drop (nat i) xs"
      using ds(2) by (simp add: c nat_add flip: drop_drop)
    have lenc: "0 < length ?c \<and> int (length ?c) \<le> n"
      using True less.prems by (simp add: c) linarith
    have full: "ds \<noteq> [] \<Longrightarrow> int (length ?c) = n"
    proof -
      assume "ds \<noteq> []"
      with ds(4) have "concat ds \<noteq> []" by (cases ds rule: rev_cases) auto
      with ds(2) have "nat (i + n) < length xs" by simp
      then show ?thesis using less.prems by (simp add: c)
    qed
    have b: "\<forall>d \<in> set (butlast (?c # ds)). int (length d) = n"
      using ds(3) full by auto
    have l: "0 < length (last (?c # ds)) \<and> int (length (last (?c # ds))) \<le> n"
      using ds(4) lenc by auto
    from eq cat b l show ?thesis by blast
  qed
qed

lemma chunkArray_positive:
  assumes "0 < n"
  shows "\<exists>cs. chunkArray xs n = Some cs \<and> concat cs = xs
          \<and> (\<forall>c \<in> set (butlast cs). int (length c) = n)
          \<and> (cs \<noteq> [] \<longrightarrow> 0 < length (last cs) \<and> int (length (last cs)) \<le> n)"
  using chunk_loop_pos [OF assms, of 0 xs "[]"] by (simp add: chunkArray_def)

lemma chunkArray_empty: "chunkArray [] n = Some []"
  by (simp add: chunkArray_def chunk_loop.simps)

lemma chunkArray_never_returns: "n \<le> 0 \<Longrightarrow> xs \<noteq> [] \<Longrightarrow> chunkArray xs n = None"
  unfolding chunkArray_def by (rule chunk_loop_None) simp_all

lemma chunk_7_8_9: "chunkArray [7, 8, 9 :: nat] 2 = Some [[7, 8], [9]]"
  by (simp add: chunkArray_def chunk_loop.simps slice_def)

section \<open>Reconciliation\<close>

lemma failure_error_embedded:
  "failure_error r = (case embedded_message (resp_body r) of Some m \<Rightarrow> m
       | None \<Rightarrow> JStr (''Unknown error (Status: '' @ show_int (status r) @ '')''))"
  by (cases "resp_body r")
     (auto simp: failure_error_def embedded_message_def Let_def split: option.splits jsval.splits)

lemma outcomes_from_Nil [simp]: "outcomes_from i [] items = []"
  by (simp add: outcomes_from_def)

lemma upt_from_Suc: "[i ..< i + Suc n] = i # [Suc i ..< Suc i + n]"
  by (metis add_Suc add_Suc_right less_add_Suc1 upt_conv_Cons)

lemma outcomes_from_Cons:
  "outcomes_from i (r # rs) items = outcome_of r (index_of items i) # outcomes_from (Suc i) rs items"
proof -
  have "[i ..< i + length (r # rs)] = i # [Suc i ..< Suc i + length rs]"
    using upt_from_Suc [of i "length rs"] by simp
  then show ?thesis
    unfolding outcomes_from_def by simp
qed

lemma successes_append [simp]: "successes (xs @ ys) = successes xs @ successes ys"
  by (induction xs rule: successes.induct) auto

lemma failures_append [simp]: "failures (xs @ ys) = failures xs @ failures ys"
  by (induction xs rule: failures.induct) auto

lemma forEach_outcomes:
  "successful (forEach_response rs i items res) = successful res @ successes (outcomes_from i rs items)
   \<and> failed (forEach_response rs i items res) = failed res @ failures (outcomes_from i rs items)"
proof (induction rs arbitrary: i res)
  case Nil
  show ?case by simp
next
  case (Cons r rs)
  show ?case
    by (simp add: Cons.IH outcomes_from_Cons outcome_of_def failure_error_embedded)
qed

lemma processBatchResponse_outcomes:
  "successful (processBatchResponse rs items) = successes (outcomes_from 0 rs items)"
  "failed (processBatchResponse rs items) = failures (outcomes_from 0 rs items)"
  by (simp_all add: processBatchResponse_def forEach_outcomes)

lemma outcomes_from_equal_length:
  "length rs = length items \<Longrightarrow>
     outcomes_from 0 rs items = map (\<lambda>(r, item). outcome_of r (Some item)) (zip rs items)"
  unfolding outcomes_from_def
  by (rule nth_equalityI) (auto simp: index_of_def)

lemma length_successes_failures: "length (successes os) + length (failures os) = length os"
  by (induction os rule: successes.induct) auto

lemma mset_successes_failures:
  "mset (map fst (successes os)) + mset (map fst (failures os)) = mset (map outcome_item os)"
  by (induction os rule: successes.induct) auto

lemma outcome_item_of [simp]: "outcome_item (outcome_of r x) = x"
  by (simp add: outcome_of_def)

lemma map_item_outcomes_from:
  "map outcome_item (outcomes_from i rs items) = map (index_of items) [i ..< i + length rs]"
  unfolding outcomes_from_def by (rule nth_equalityI) auto

lemma index_of_upt:
  "map (index_of items) [0 ..< n] = map Some (take n items) @ replicate (n - length items) None"
  by (rule nth_equalityI) (auto simp: index_of_def nth_append)

section \<open>One batch with its retries\<close>

lemma build_requests_world:
  "snd (build_requests uuid4 requestBuilder items s) = s\<lparr>next_uuid := next_uuid s + length items\<rparr>"
  by (induction items arbitrary: s) (simp_all add: Let_def case_prod_beta)

lemma build_requests_length:
  "length (fst (build_requests uuid4 requestBuilder items s)) = length items"
  by (induction items arbitrary: s) (simp_all add: Let_def case_prod_beta)

lemma build_requests_explicit:
  "fst (build_requests uuid4 requestBuilder items s) =
     map2 (\<lambda>j item. with_id (uuid4 j) (requestBuilder item))
       [next_uuid s ..< next_uuid s + length items] items"
proof (induction items arbitrary: s)
  case Nil
  show ?case by simp
next
  case (Cons item items)
  have "[next_uuid s ..< next_uuid s + length (item # items)] =
        next_uuid s # [Suc (next_uuid s) ..< Suc (next_uuid s) + length items]"
    using upt_from_Suc [of "next_uuid s" "length items"] by simp
  then show ?case
    by (simp add: Let_def case_prod_beta Cons.IH)
qed

lemma attempt_returns:
  assumes "client (posted s) (fst (build_requests uuid4 requestBuilder items s)) = Inr responses"
  shows "processSingleBatchWithRetry client uuid4 opts items requestBuilder attempt s =
           (processBatchResponse responses items, after_post uuid4 requestBuilder items s)"
  using assms
  by (subst processSingleBatchWithRetry.simps)
     (simp add: Let_def build_requests_world after_post_def)

lemma attempt_gives_up:
  assumes "client (posted s) (fst (build_requests uuid4 requestBuilder items s)) = Inl e"
    and "statusCode e \<noteq> Some 429 \<or> maxRetries opts \<le> attempt"
  shows "processSingleBatchWithRetry client uuid4 opts items requestBuilder attempt s =
           (all_failed items e, after_post uuid4 requestBuilder items s)"
  using assms
  by (subst processSingleBatchWithRetry.simps)
     (auto simp add: Let_def build_requests_world after_post_def)

lemma attempt_retries:
  assumes "client (posted s) (fst (build_requests uuid4 requestBuilder items s)) = Inl e"
    and "statusCode e = Some 429" and "attempt < maxRetries opts"
  shows "processSingleBatchWithRetry client uuid4 opts items requestBuilder attempt s =
           processSingleBatchWithRetry client uuid4 opts items requestBuilder (attempt + 1)
             ((after_post uuid4 requestBuilder items s)
                \<lparr>timers := timers s @ [times1000 (retryAfter opts e)]\<rparr>)"
  using assms
  by (subst processSingleBatchWithRetry.simps)
     (simp add: Let_def build_requests_world after_post_def)

lemma retry_induct [case_names returns gives_up retries]:
  fixes client :: client and opts :: options and P :: "int \<Rightarrow> world \<Rightarrow> bool"
  assumes returns: "\<And>attempt s responses.
             client (posted s) (fst (build_requests uuid requestBuilder items s)) = Inr responses
             \<Longrightarrow> P attempt s"
    and gives_up: "\<And>attempt s e.
             client (posted s) (fst (build_requests uuid requestBuilder items s)) = Inl e
             \<Longrightarrow> statusCode e \<noteq> Some 429 \<or> maxRetries opts \<le> attempt \<Longrightarrow> P attempt s"
    and retries: "\<And>attempt s e.
             client (posted s) (fst (build_requests uuid requestBuilder items s)) = Inl e
             \<Longrightarrow> statusCode e = Some 429 \<Longrightarrow> attempt < maxRetries opts
             \<Longrightarrow> P (attempt + 1)
                   ((after_post uuid requestBuilder items s)
                      \<lparr>timers := timers s @ [times1000 (retryAfter opts e)]\<rparr>)
             \<Longrightarrow> P attempt s"
  shows "P attempt0 s0"
proof -
  have "\<forall>attempt s. nat (maxRetries opts - attempt) = n \<longrightarrow> P attempt s" for n
  proof (induction n rule: less_induct)
    case (less n)
    show ?case
    proof (intro allI impI)
      fix attempt :: int and s :: world
      assume n: "nat (maxRetries opts - attempt) = n"
      show "P attempt s"
      proof (cases "client (posted s) (fst (build_requests uuid requestBuilder items s))")
        case (Inr responses)
        then show ?thesis by (rule returns)
      next
        case (Inl e)
        show ?thesis
        proof (cases "statusCode e = Some 429 \<and> attempt < maxRetries opts")
          case True
          then have "nat (maxRetries opts - (attempt + 1)) < n"
            using n by linarith
          with less.IH have step: "P (attempt + 1)
                   ((after_post uuid requestBuilder items s)
                      \<lparr>timers := timers s @ [times1000 (retryAfter opts e)]\<rparr>)"
            by blast
          from True have "statusCode e = Some 429" and "attempt < maxRetries opts"
            by simp_all
          with Inl show ?thesis using step by (rule retries)
        next
          case False
          then have "statusCode e \<noteq> Some 429 \<or> maxRetries opts \<le> attempt"
            by auto
          with Inl show ?thesis by (rule gives_up)
        qed
      qed
    qed
  qed
  then show ?thesis by blast
qed

lemma attempt_requests_0:
  "fst (build_requests uuid4 requestBuilder items s) =
     attempt_requests uuid4 requestBuilder items (next_uuid s) 0"
  by (simp add: attempt_requests_def build_requests_explicit)

lemma attempt_requests_shift:
  "attempt_requests uuid4 requestBuilder items (first + length items) k =
     attempt_requests uuid4 requestBuilder items first (Suc k)"
  by (simp add: attempt_requests_def add.assoc add.commute)

lemma map_upt_Suc_shift: "f 0 # map (\<lambda>k. f (Suc k)) [0..<n] = map f [0..<Suc n]"
  by (simp add: map_upt_Suc del: upt_Suc)

lemma retry_trace:
  fixes client :: client
  shows "\<exists>n ds. 0 < n
      \<and> posted (snd (processSingleBatchWithRetry client uuid4 opts items requestBuilder attempt s)) =
          posted s @ map (attempt_requests uuid4 requestBuilder items (next_uuid s)) [0..<n]
      \<and> next_uuid (snd (processSingleBatchWithRetry client uuid4 opts items requestBuilder attempt s)) =
          next_uuid s + n * length items
      \<and> timers (snd (processSingleBatchWithRetry client uuid4 opts items requestBuilder attempt s)) =
          timers s @ ds
      \<and> Suc (length ds) = n"
proof (induction attempt s rule: retry_induct [where client = client and uuid = uuid4
          and requestBuilder = requestBuilder and items = items and opts = opts])
  case (returns attempt s responses)
  have "processSingleBatchWithRetry client uuid4 opts items requestBuilder attempt s =
          (processBatchResponse responses items, after_post uuid4 requestBuilder items s)"
    using returns by (rule attempt_returns)
  then show ?case
    by (intro exI [of _ 1] exI [of _ "[]"]) (simp add: after_post_def attempt_requests_0)
next
  case (gives_up attempt s e)
  have "processSingleBatchWithRetry client uuid4 opts items requestBuilder attempt s =
          (all_failed items e, after_post uuid4 requestBuilder items s)"
    using gives_up by (rule attempt_gives_up)
  then show ?case
    by (intro exI [of _ 1] exI [of _ "[]"]) (simp add: after_post_def attempt_requests_0)
next
  case (retries attempt s e)
  let ?s1 = "(after_post uuid4 requestBuilder items s)
                \<lparr>timers := timers s @ [times1000 (retryAfter opts e)]\<rparr>"
  let ?r = "processSingleBatchWithRetry client uuid4 opts items requestBuilder (attempt + 1) ?s1"
  from retries(4) obtain n ds where n: "0 < n"
    and p: "posted (snd ?r) = posted ?s1 @ map (attempt_requests uuid4 requestBuilder items (next_uuid ?s1)) [0..<n]"
    and u: "next_uuid (snd ?r) = next_uuid ?s1 + n * length items"
    and t: "timers (snd ?r) = timers ?s1 @ ds"
    and l: "Suc (length ds) = n"
    by blast
  have nu: "next_uuid ?s1 = next_uuid s + length items" by (simp add: after_post_def)
  have "posted (snd ?r) = posted s @
          attempt_requests uuid4 requestBuilder items (next_uuid s) 0 #
          map (\<lambda>k. attempt_requests uuid4 requestBuilder items (next_uuid s) (Suc k)) [0..<n]"
    unfolding p nu attempt_requests_shift by (simp add: after_post_def attempt_requests_0)
  then have p': "posted (snd ?r) = posted s @
          map (attempt_requests uuid4 requestBuilder items (next_uuid s)) [0..<Suc n]"
    unfolding map_upt_Suc_shift [of "attempt_requests uuid4 requestBuilder items (next_uuid s)" n] .
  have u': "next_uuid (snd ?r) = next_uuid s + Suc n * length items"
    unfolding u nu by simp
  have t': "timers (snd ?r) = timers s @ (times1000 (retryAfter opts e) # ds)"
    unfolding t by (simp add: after_post_def)
  have "processSingleBatchWithRetry client uuid4 opts items requestBuilder attempt s = ?r"
    using retries(1-3) by (rule attempt_retries)
  with p' u' t' l show ?case
    by (intro exI [of _ "Suc n"] exI [of _ "times1000 (retryAfter opts e) # ds"]) simp
qed

subsection \<open>A client that is always rate limited\<close>

lemma all_failed_items:
  "successful (all_failed items e) = [] \<and> map fst (failed (all_failed items e)) = map Some items"
  by (simp add: all_failed_def comp_def)

lemma always_429:
  fixes client :: client
  assumes limited: "\<forall>hist reqs. \<exists>e. client hist reqs = Inl e \<and> statusCode e = Some 429"
  shows "attempt \<le> maxRetries opts \<longrightarrow>
     length (posted (snd (processSingleBatchWithRetry client uuid4 opts items requestBuilder attempt s))) =
       length (posted s) + nat (maxRetries opts - attempt) + 1
     \<and> length (timers (snd (processSingleBatchWithRetry client uuid4 opts items requestBuilder attempt s))) =
       length (timers s) + nat (maxRetries opts - attempt)
     \<and> (\<exists>e. fst (processSingleBatchWithRetry client uuid4 opts items requestBuilder attempt s) =
            all_failed items e)"
proof (induction attempt s rule: retry_induct [where client = client and uuid = uuid4
          and requestBuilder = requestBuilder and items = items and opts = opts])
  case (returns attempt s responses)
  with limited show ?case by (metis sum.distinct(1))
next
  case (gives_up attempt s e)
  have run: "processSingleBatchWithRetry client uuid4 opts items requestBuilder attempt s =
          (all_failed items e, after_post uuid4 requestBuilder items s)"
    using gives_up by (rule attempt_gives_up)
  from limited gives_up(1) have "statusCode e = Some 429" by (metis sum.inject(1))
  with gives_up(2) have "maxRetries opts \<le> attempt" by simp
  then show ?case unfolding run by (auto simp: after_post_def)
next
  case (retries attempt s e)
  have run: "processSingleBatchWithRetry client uuid4 opts items requestBuilder attempt s =
           processSingleBatchWithRetry client uuid4 opts items requestBuilder (attempt + 1)
             ((after_post uuid4 requestBuilder items s)
                \<lparr>timers := timers s @ [times1000 (retryAfter opts e)]\<rparr>)"
    using retries(1-3) by (rule attempt_retries)
  have n: "nat (maxRetries opts - attempt) = Suc (nat (maxRetries opts - (attempt + 1)))"
    using retries(3) by linarith
  from retries(3,4) show ?case
    unfolding run n by (simp add: after_post_def)
qed

subsection \<open>The wait before a retry\<close>



lemma StringToNumber_1: "StringToNumber ''1'' = Fin 1"
  by code_simp




subsection \<open>The requests of the attempts\<close>

lemma attempt_requests_fields:
  "map request_fields.truncate (attempt_requests uuid4 requestBuilder items first k) =
     map requestBuilder items"
  unfolding attempt_requests_def
  by (rule nth_equalityI) (simp_all add: with_id_def request_fields.truncate_def)

lemma attempt_requests_ids:
  "map id' (attempt_requests uuid4 requestBuilder items first k) =
     map uuid4 [first + k * length items ..< first + Suc k * length items]"
  unfolding attempt_requests_def
  by (rule nth_equalityI) (simp_all add: with_id_def)

lemma attempt_requests_ids_disjoint:
  assumes "inj uuid4" "j \<noteq> k"
  shows "set (map id' (attempt_requests uuid4 requestBuilder items first j)) \<inter>
         set (map id' (attempt_requests uuid4 requestBuilder items first k)) = {}"
proof -
  have "{first + j * length items ..< first + Suc j * length items} \<inter>
        {first + k * length items ..< first + Suc k * length items} = {}"
  proof (cases "j < k")
    case True
    then have "Suc j * length items \<le> k * length items"
      by (metis Suc_leI mult_le_mono1)
    then show ?thesis by auto
  next
    case False
    with assms(2) have "k < j" by simp
    then have "Suc k * length items \<le> j * length items"
      by (metis Suc_leI mult_le_mono1)
    then show ?thesis by auto
  qed
  then show ?thesis
    unfolding attempt_requests_ids using assms(1)
    by (simp add: image_Int [symmetric] del: mult_Suc)
qed

lemma inj_sample_uuid: "inj sample_uuid"
proof (rule injI)
  fix j k :: nat
  assume "sample_uuid j = sample_uuid k"
  then have "length (replicate j (CHR ''x'')) = length (replicate k (CHR ''x''))"
    unfolding sample_uuid_def by simp
  then show "j = k" by simp
qed

section \<open>The whole run\<close>

lemma reconciled_items:
  assumes "length responses = length items"
  shows "length (successful (processBatchResponse responses items))
           + length (failed (processBatchResponse responses items)) = length items
       \<and> mset (map fst (successful (processBatchResponse responses items)))
           + mset (map fst (failed (processBatchResponse responses items))) = mset (map Some items)"
proof -
  let ?os = "outcomes_from 0 responses items"
  have "mset (map fst (successes ?os)) + mset (map fst (failures ?os)) = mset (map outcome_item ?os)"
    by (rule mset_successes_failures)
  also have "map outcome_item ?os = map (index_of items) [0 ..< length responses]"
    using map_item_outcomes_from [of 0 responses items] by simp
  also have "\<dots> = map Some items"
    using assms by (simp add: index_of_upt)
  finally show ?thesis
    unfolding processBatchResponse_outcomes
    using length_successes_failures [of ?os] assms by (simp add: outcomes_from_def)
qed

lemma batch_accounts_for_items:
  fixes client :: client
  assumes one_each: "\<forall>hist reqs responses. client hist reqs = Inr responses
                       \<longrightarrow> length responses = length reqs"
  shows "accounts_for (fst (processSingleBatchWithRetry client uuid opts items requestBuilder attempt s)) items"
proof (induction attempt s rule: retry_induct [where client = client and uuid = uuid
          and requestBuilder = requestBuilder and items = items and opts = opts])
  case (returns attempt s responses)
  have run: "processSingleBatchWithRetry client uuid opts items requestBuilder attempt s =
          (processBatchResponse responses items, after_post uuid requestBuilder items s)"
    using returns by (rule attempt_returns)
  from one_each returns have "length responses = length items"
    by (simp add: build_requests_length)
  then show ?case
    unfolding run accounts_for_def using reconciled_items [of responses items] by simp
next
  case (gives_up attempt s e)
  have run: "processSingleBatchWithRetry client uuid opts items requestBuilder attempt s =
          (all_failed items e, after_post uuid requestBuilder items s)"
    using gives_up by (rule attempt_gives_up)
  show ?case
    unfolding run accounts_for_def by (simp add: all_failed_def comp_def)
next
  case (retries attempt s e)
  have run: "processSingleBatchWithRetry client uuid opts items requestBuilder attempt s =
           processSingleBatchWithRetry client uuid opts items requestBuilder (attempt + 1)
             ((after_post uuid requestBuilder items s)
                \<lparr>timers := timers s @ [times1000 (retryAfter opts e)]\<rparr>)"
    using retries(1-3) by (rule attempt_retries)
  from retries(4) show ?case unfolding run .
qed

lemma run_batches_accounts_for:
  fixes client :: client
  assumes one_each: "\<forall>hist reqs responses. client hist reqs = Inr responses
                       \<longrightarrow> length responses = length reqs"
    and "accounts_for results done"
  shows "accounts_for (fst (run_batches client uuid opts requestBuilder batches results s))
           (done @ concat batches)"
  using assms(2)
proof (induction batches arbitrary: results s "done")
  case Nil
  then show ?case by simp
next
  case (Cons batch batches)
  let ?r = "processSingleBatchWithRetry client uuid opts batch requestBuilder 1 s"
  let ?results = "results\<lparr>successful := successful results @ successful (fst ?r),
                            failed := failed results @ failed (fst ?r)\<rparr>"
  have "accounts_for (fst ?r) batch"
    using one_each by (rule batch_accounts_for_items)
  with Cons.prems have "accounts_for ?results (done @ batch)"
    by (simp add: accounts_for_def ac_simps)
  from Cons.IH [OF this, of "snd ?r"] show ?case
    by (simp add: Let_def)
qed

lemma groups_posted:
  fixes client :: client
  shows "posted (snd (groups_in_order client uuid opts requestBuilder batches s)) =
           posted s @ concat (map snd (fst (groups_in_order client uuid opts requestBuilder batches s)))"
proof (induction batches arbitrary: s)
  case Nil
  show ?case by simp
next
  case (Cons g gs)
  let ?d = "processSingleBatchWithRetry client uuid opts g requestBuilder 1 s"
  from retry_trace [of client uuid opts g requestBuilder 1 s]
  obtain ps where "posted (snd ?d) = posted s @ ps" by blast
  then have "posted (snd ?d) = posted s @ drop (length (posted s)) (posted (snd ?d))"
    by simp
  with Cons.IH [of "snd ?d"] show ?case
    by (simp add: Let_def)
qed

lemma run_batches_groups:
  fixes client :: client
  shows "run_batches client uuid opts requestBuilder batches results s =
     (results\<lparr>successful := successful results @
                 concat (map (successful \<circ> fst) (fst (groups_in_order client uuid opts requestBuilder batches s))),
              failed := failed results @
                 concat (map (failed \<circ> fst) (fst (groups_in_order client uuid opts requestBuilder batches s)))\<rparr>,
      snd (groups_in_order client uuid opts requestBuilder batches s))"
proof (induction batches arbitrary: results s)
  case Nil
  show ?case by simp
next
  case (Cons g gs)
  show ?case
    by (simp add: Let_def Cons.IH)
qed

section \<open>A sample run\<close>

lemma sample_answers:
  "answer (with_id u (sample_builder 7)) = ok_user\<lparr>resp_id := u\<rparr>"
  "answer (with_id u (sample_builder 8)) = not_found\<lparr>resp_id := u\<rparr>"
  "answer (with_id u (sample_builder 9)) = ok_user\<lparr>resp_id := u\<rparr>"
  by (simp_all add: answer_def with_id_def sample_builder_def)

lemma sample_first_group:
  "processSingleBatchWithRetry graph_service sample_uuid sample_options [7, 8] sample_builder 1 start =
      (\<lparr>successful = [(Some 7, JObj [(''displayName'', JStr ''Ada'')])],
        failed = [(Some 8, JStr ''not found'')]\<rparr>, after_first_group)"
proof -
  have opts: "maxRetries sample_options = 3"
    by (simp add: sample_options_def)
  have ids: "sample_uuid 0 = ''id-''" "sample_uuid (Suc 0) = ''id-x''"
    "sample_uuid (Suc (Suc 0)) = ''id-xx''" "sample_uuid (Suc (Suc (Suc 0))) = ''id-xxx''"
    by (simp_all add: sample_uuid_def)
  have hint: "retryAfter sample_options (too_many_requests (Some ''1'')) = Fin 1"
    by (simp add: retryAfter_def retry_after_header_def too_many_requests_def StringToNumber_1)
  have limited: "statusCode (too_many_requests (Some ''1'')) = Some 429"
    by (simp add: too_many_requests_def)
  show ?thesis
    by (simp add: processSingleBatchWithRetry.simps [of graph_service] graph_service_def start_def
          Let_def opts ids sample_answers hint limited processBatchResponse_def
          ok_user_def not_found_def index_of_def failure_error_def after_first_group_def)
qed

lemma sample_second_group:
  "processSingleBatchWithRetry graph_service sample_uuid sample_options [9] sample_builder 1
       after_first_group =
      (\<lparr>successful = [(Some 9, JObj [(''displayName'', JStr ''Ada'')])], failed = []\<rparr>,
       after_second_group)"
proof -
  have id4: "sample_uuid 4 = ''id-xxxx''"
    by (simp add: sample_uuid_def eval_nat_numeral)
  show ?thesis
    by (simp add: processSingleBatchWithRetry.simps [of graph_service] graph_service_def
          Let_def id4 sample_answers processBatchResponse_def ok_user_def index_of_def
          after_first_group_def after_second_group_def)
qed

lemma sample_run:
  "processBatch graph_service sample_uuid sample_options [7, 8, 9] sample_builder start =
     Some (\<lparr>successful = [(Some 7, JObj [(''displayName'', JStr ''Ada'')]),
                          (Some 9, JObj [(''displayName'', JStr ''Ada'')])],
            failed = [(Some 8, JStr ''not found'')]\<rparr>,
           after_second_group)"
proof -
  have "batchSize sample_options = 2"
    by (simp add: sample_options_def)
  then show ?thesis
    by (simp add: processBatch_def chunk_7_8_9 Let_def sample_first_group sample_second_group)
qed

section \<open>Claims\<close>

text \<open>
  C1. For every list of items and every configuration with a positive batch size, if the
  endpoint, whenever it answers, answers with as many sub-responses as the request list
  it was sent has requests, then \<open>processBatch\<close> returns a result whose two lists together
  have exactly one entry per input item: their lengths add up to the number of items,
  and the items they carry are, as a multiset, the input items. (An attempt on which the
  endpoint throws is covered: it is retried or fails every item of its group.)
\<close>

theorem no_item_lost_or_duplicated:
  fixes client :: client
  assumes "0 < batchSize opts"
    and "\<forall>hist reqs responses. client hist reqs = Inr responses \<longrightarrow> length responses = length reqs"
  shows "\<exists>result s'. processBatch client uuid opts requests requestBuilder s = Some (result, s')
       \<and> length (successful result) + length (failed result) = length requests
       \<and> mset (map fst (successful result)) + mset (map fst (failed result)) = mset (map Some requests)"
proof -
  from chunkArray_positive [OF assms(1), of requests]
  obtain batches where b: "chunkArray requests (batchSize opts) = Some batches"
    and c: "concat batches = requests"
    by blast
  let ?r = "run_batches client uuid opts requestBuilder batches \<lparr>successful = [], failed = []\<rparr> s"
  have "accounts_for \<lparr>successful = [], failed = []\<rparr> ([] :: 'a list)"
    by (simp add: accounts_for_def)
  from run_batches_accounts_for [OF assms(2) this, of uuid opts requestBuilder batches s]
  have "accounts_for (fst ?r) requests"
    by (simp add: c)
  moreover have "processBatch client uuid opts requests requestBuilder s = Some (fst ?r, snd ?r)"
    by (simp add: processBatch_def b)
  ultimately show ?thesis
    unfolding accounts_for_def by blast
qed

theorem no_item_lost_or_duplicated_witness:
  "0 < batchSize sample_options
   \<and> (\<forall>hist reqs. graph_service hist reqs = Inl (too_many_requests (Some ''1''))
          \<or> (\<exists>responses. graph_service hist reqs = Inr responses \<and> length responses = length reqs))
   \<and> (\<exists>result s'.
         processBatch graph_service sample_uuid sample_options [7, 8, 9] sample_builder start =
           Some (result, s')
         \<and> successful result = [(Some 7, JObj [(''displayName'', JStr ''Ada'')]),
                                 (Some 9, JObj [(''displayName'', JStr ''Ada'')])]
         \<and> failed result = [(Some 8, JStr ''not found'')]
         \<and> length (successful result) + length (failed result) = length [7, 8, 9 :: nat]
         \<and> mset (map fst (successful result)) + mset (map fst (failed result)) =
             mset (map Some [7, 8, 9]))"
proof -
  have h1: "0 < batchSize sample_options"
    by (simp add: sample_options_def)
  have h2: "\<forall>hist reqs responses. graph_service hist reqs = Inr responses
              \<longrightarrow> length responses = length reqs"
    by (auto simp: graph_service_def split: if_splits)
  have h2': "\<forall>hist reqs. graph_service hist reqs = Inl (too_many_requests (Some ''1''))
          \<or> (\<exists>responses. graph_service hist reqs = Inr responses \<and> length responses = length reqs)"
    by (simp add: graph_service_def)
  from no_item_lost_or_duplicated [where client = graph_service and opts = sample_options
        and uuid = sample_uuid and requests = "[7, 8, 9]" and requestBuilder = sample_builder
        and s = start, OF h1 h2]
  obtain result s' where
    r: "processBatch graph_service sample_uuid sample_options [7, 8, 9] sample_builder start =
          Some (result, s')"
    and l: "length (successful result) + length (failed result) = length [7, 8, 9 :: nat]"
    and m: "mset (map fst (successful result)) + mset (map fst (failed result)) =
             mset (map Some [7, 8, 9])"
    by blast
  from r have "successful result = [(Some 7, JObj [(''displayName'', JStr ''Ada'')]),
                                 (Some 9, JObj [(''displayName'', JStr ''Ada'')])]
         \<and> failed result = [(Some 8, JStr ''not found'')]"
    unfolding sample_run by auto
  with r l m h1 h2' show ?thesis by blast
qed

text \<open>
  C2. The claim says that the constructor called without options succeeds with the
  defaults 20, 2, 3, 1000, 1000, and that a caller who supplies some of the fields keeps
  the defaults of the others. The code does neither: with no argument the default
  initialiser reads \<^verbatim>\<open>options.retryDelay\<close> from the very parameter it is initialising and
  throws; with an argument the constructor copies it as it is, so the README's own
  \<^verbatim>\<open>{ batchSize: 20, concurrency: 2 }\<close> leaves \<^verbatim>\<open>maxRetries\<close>, \<^verbatim>\<open>retryDelay\<close> and
  \<^verbatim>\<open>queueInterval\<close> undefined.
\<close>

theorem constructor_without_options_throws:
  "new_MsGraphBatchProcessor None = Inl ReferenceError
   \<and> new_MsGraphBatchProcessor (Some readme_options) = Inr readme_options
   \<and> maxRetries' readme_options = None
   \<and> retryDelay' readme_options = None
   \<and> queueInterval' readme_options = None"
  by (simp add: new_MsGraphBatchProcessor_def default_options_def read_binding_def readme_options_def)

text \<open>
  C3. If every call of the batch endpoint throws an error with status 429, then for every
  group and every \<open>maxRetries \<ge> 1\<close> the call \<open>processSingleBatchWithRetry\<close> (started, as
  \<open>processBatch\<close> starts it, with attempt 1) posts exactly \<open>maxRetries\<close> times, waits
  \<open>maxRetries - 1\<close> times, and returns no success and one failure per item of the group, in
  order. With \<open>maxRetries = 1\<close> that is one post and no wait.
\<close>

theorem rate_limited_batch_tried_maxRetries_times:
  fixes client :: client
  assumes "\<forall>hist reqs. \<exists>e. client hist reqs = Inl e \<and> statusCode e = Some 429"
    and "1 \<le> maxRetries opts"
  shows "length (posted (snd (processSingleBatchWithRetry client uuid opts items requestBuilder 1 s))) =
           length (posted s) + nat (maxRetries opts)
       \<and> length (timers (snd (processSingleBatchWithRetry client uuid opts items requestBuilder 1 s))) + 1 =
           length (timers s) + nat (maxRetries opts)
       \<and> successful (fst (processSingleBatchWithRetry client uuid opts items requestBuilder 1 s)) = []
       \<and> map fst (failed (fst (processSingleBatchWithRetry client uuid opts items requestBuilder 1 s))) =
           map Some items"
proof -
  from always_429 [OF assms(1), of 1 opts uuid items requestBuilder s] assms(2)
  obtain e where
    p: "length (posted (snd (processSingleBatchWithRetry client uuid opts items requestBuilder 1 s))) =
          length (posted s) + nat (maxRetries opts - 1) + 1"
    and t: "length (timers (snd (processSingleBatchWithRetry client uuid opts items requestBuilder 1 s))) =
          length (timers s) + nat (maxRetries opts - 1)"
    and r: "fst (processSingleBatchWithRetry client uuid opts items requestBuilder 1 s) = all_failed items e"
    by blast
  have n: "nat (maxRetries opts - 1) + 1 = nat (maxRetries opts)"
    using assms(2) by linarith
  show ?thesis
    using p t n unfolding r by (simp add: all_failed_items)
qed

theorem rate_limited_batch_tried_maxRetries_times_witness:
  "(\<forall>hist reqs. \<exists>e. always_limited None hist reqs = Inl e \<and> statusCode e = Some 429)
   \<and> 1 \<le> maxRetries sample_options
   \<and> length (posted (snd (processSingleBatchWithRetry (always_limited None) sample_uuid sample_options
                             [7, 8] sample_builder 1 start))) = 3
   \<and> length (timers (snd (processSingleBatchWithRetry (always_limited None) sample_uuid sample_options
                             [7, 8] sample_builder 1 start))) = 2
   \<and> failed (fst (processSingleBatchWithRetry (always_limited None) sample_uuid sample_options
                             [7, 8] sample_builder 1 start)) =
       [(Some 7, JStr ''Batch request failed: Error: Too Many Requests''),
        (Some 8, JStr ''Batch request failed: Error: Too Many Requests'')]"
proof -
  have h1: "\<forall>hist reqs. \<exists>e. always_limited None hist reqs = Inl e \<and> statusCode e = Some 429"
    by (simp add: always_limited_def too_many_requests_def)
  have h2: "1 \<le> maxRetries sample_options"
    by (simp add: sample_options_def)
  have f: "failed (fst (processSingleBatchWithRetry (always_limited None) sample_uuid sample_options
                             [7, 8] sample_builder 1 start)) =
       [(Some 7, JStr ''Batch request failed: Error: Too Many Requests''),
        (Some 8, JStr ''Batch request failed: Error: Too Many Requests'')]"
    by (simp add: processSingleBatchWithRetry.simps always_limited_def too_many_requests_def
          sample_options_def all_failed_def)
  show ?thesis
    using h1 h2 f
      rate_limited_batch_tried_maxRetries_times [where client = "always_limited None"
        and opts = sample_options and uuid = sample_uuid and items = "[7, 8]"
        and requestBuilder = sample_builder and s = start, OF h1 h2]
    by (simp add: sample_options_def start_def)
qed




text \<open>
  C5, as the code has it. For a response list and an item list of equal length,
  \<open>processBatchResponse\<close> returns without raising and gives each position exactly one
  outcome, decided by that position alone and kept in order: a success with the item and
  the body when the status is in \<open>[200, 300)\<close> and the body is truthy; otherwise a failure
  with the item and the body's embedded error message when that message is truthy, or
  else the text \<^verbatim>\<open>Unknown error (Status: n)\<close> with the status code. A body that is present
  but falsy (\<^verbatim>\<open>null\<close>, \<^verbatim>\<open>false\<close>, \<open>0\<close>, \<open>NaN\<close>, the empty string) counts as no body: the
  counterexample is a status 200 whose body is the empty string, which ends as a failure.
\<close>

theorem reconciliation_classifies_each_position:
  assumes "length responses = length originalItems"
  shows "successful (processBatchResponse responses originalItems) =
           successes (map2 (\<lambda>response item. outcome_of response (Some item)) responses originalItems)
       \<and> failed (processBatchResponse responses originalItems) =
           failures (map2 (\<lambda>response item. outcome_of response (Some item)) responses originalItems)
       \<and> length (successful (processBatchResponse responses originalItems))
           + length (failed (processBatchResponse responses originalItems)) = length originalItems"
proof -
  have "outcomes_from 0 responses originalItems =
          map2 (\<lambda>response item. outcome_of response (Some item)) responses originalItems"
    using assms by (rule outcomes_from_equal_length)
  then show ?thesis
    using assms length_successes_failures [of "outcomes_from 0 responses originalItems"]
    by (simp add: processBatchResponse_outcomes)
qed

theorem reconciliation_classifies_each_position_witness:
  "length [ok_user, not_found] = length [7, 8 :: nat]
   \<and> successful (processBatchResponse [ok_user, not_found] [7, 8 :: nat]) =
       [(Some 7, JObj [(''displayName'', JStr ''Ada'')])]
   \<and> failed (processBatchResponse [ok_user, not_found] [7, 8 :: nat]) = [(Some 8, JStr ''not found'')]"
proof -
  have h: "length [ok_user, not_found] = length [7, 8 :: nat]" by simp
  show ?thesis
    using h reconciliation_classifies_each_position [OF h]
    by (simp add: outcome_of_def embedded_message_def ok_user_def not_found_def)
qed

theorem present_falsy_body_fails_counterexample:
  "status ok_empty_text = 200 \<and> resp_body ok_empty_text \<noteq> JUndefined
   \<and> processBatchResponse [ok_empty_text] [7 :: nat] =
       \<lparr>successful = [], failed = [(Some 7, JStr ''Unknown error (Status: 200)'')]\<rparr>"
  by (simp add: processBatchResponse_def ok_empty_text_def index_of_def failure_error_def show_int_def)

text \<open>
  C6, as the code has it. \<open>processBatchResponse\<close> never compares the two lengths and never
  fails. It yields exactly one outcome per response: with fewer responses than items the
  items beyond the last response get no outcome, and with more responses than items each
  surplus response yields an outcome whose item is \<^verbatim>\<open>undefined\<close>. The counterexample shows
  both: no response for one item gives an empty result, and two responses for one item
  give a second outcome without an item.
\<close>

theorem reconciliation_follows_the_responses:
  "length (successful (processBatchResponse responses originalItems))
     + length (failed (processBatchResponse responses originalItems)) = length responses
   \<and> mset (map fst (successful (processBatchResponse responses originalItems)))
     + mset (map fst (failed (processBatchResponse responses originalItems))) =
       mset (map Some (take (length responses) originalItems))
       + replicate_mset (length responses - length originalItems) None"
proof -
  let ?os = "outcomes_from 0 responses originalItems"
  have len: "length ?os = length responses"
    by (simp add: outcomes_from_def)
  have "mset (map fst (successes ?os)) + mset (map fst (failures ?os)) = mset (map outcome_item ?os)"
    by (rule mset_successes_failures)
  also have "map outcome_item ?os = map (index_of originalItems) [0 ..< length responses]"
    using map_item_outcomes_from [of 0 responses originalItems] by simp
  also have "\<dots> = map Some (take (length responses) originalItems)
                 @ replicate (length responses - length originalItems) None"
    by (rule index_of_upt)
  finally have items: "mset (map fst (successes ?os)) + mset (map fst (failures ?os)) =
      mset (map Some (take (length responses) originalItems))
      + replicate_mset (length responses - length originalItems) None"
    by simp
  show ?thesis
    unfolding processBatchResponse_outcomes
    using items length_successes_failures [of ?os] len by simp
qed

theorem reconciliation_follows_the_responses_witness:
  "length (successful (processBatchResponse [ok_user, not_found] [7 :: nat]))
     + length (failed (processBatchResponse [ok_user, not_found] [7 :: nat])) = 2
   \<and> mset (map fst (successful (processBatchResponse [ok_user, not_found] [7 :: nat])))
     + mset (map fst (failed (processBatchResponse [ok_user, not_found] [7 :: nat]))) =
       {#Some 7, None#}"
  using reconciliation_follows_the_responses [of "[ok_user, not_found]" "[7 :: nat]"]
  by simp

theorem length_mismatch_is_silent_counterexample:
  "processBatchResponse [] [7 :: nat] = \<lparr>successful = [], failed = []\<rparr>
   \<and> processBatchResponse [ok_user, not_found] [7 :: nat] =
       \<lparr>successful = [(Some 7, JObj [(''displayName'', JStr ''Ada'')])],
        failed = [(None, JStr ''not found'')]\<rparr>"
  by (simp add: processBatchResponse_def ok_user_def not_found_def index_of_def failure_error_def)

text \<open>
  C7, as the code has it. The request list is built anew at the start of every attempt,
  from the same items: the lists posted for a group are \<open>attempt_requests \<dots> 0\<close>,
  \<open>attempt_requests \<dots> 1\<close>, and so on, one per attempt. In each of them the method, target,
  payload and headers are, position by position, what the builder gives for the item, so
  they are the same on every attempt; the identifiers are drawn anew for every attempt,
  and with a generator that never repeats no identifier of one attempt occurs in
  another. The counterexample shows two attempts on two items: identifiers
  \<^verbatim>\<open>id-\<close>, \<^verbatim>\<open>id-x\<close> on the first and \<^verbatim>\<open>id-xx\<close>, \<^verbatim>\<open>id-xxx\<close> on the second.
\<close>

theorem every_attempt_rebuilds_its_requests:
  fixes client :: client
  shows "(\<exists>n. 0 < n \<and>
            posted (snd (processSingleBatchWithRetry client uuid opts items requestBuilder attempt s)) =
              posted s @ map (attempt_requests uuid requestBuilder items (next_uuid s)) [0..<n])
       \<and> (\<forall>k. map request_fields.truncate (attempt_requests uuid requestBuilder items first k) =
                 map requestBuilder items)
       \<and> (\<forall>j k. inj uuid \<and> j \<noteq> k \<longrightarrow>
                 set (map id' (attempt_requests uuid requestBuilder items first j)) \<inter>
                 set (map id' (attempt_requests uuid requestBuilder items first k)) = {})"
proof -
  from retry_trace [of client uuid opts items requestBuilder attempt s]
  have "\<exists>n. 0 < n \<and>
            posted (snd (processSingleBatchWithRetry client uuid opts items requestBuilder attempt s)) =
              posted s @ map (attempt_requests uuid requestBuilder items (next_uuid s)) [0..<n]"
    by blast
  then show ?thesis
    using attempt_requests_fields [of uuid requestBuilder items first]
      attempt_requests_ids_disjoint [of uuid _ _ requestBuilder items first]
    by blast
qed

theorem every_attempt_rebuilds_its_requests_witness:
  "inj sample_uuid \<and> (0::nat) \<noteq> 1
   \<and> posted (snd (processSingleBatchWithRetry (always_limited None) sample_uuid
                     (sample_options\<lparr>maxRetries := 2\<rparr>) [7, 8] sample_builder 1 start)) =
       map (attempt_requests sample_uuid sample_builder [7, 8] 0) [0..<2]
   \<and> map request_fields.truncate (attempt_requests sample_uuid sample_builder [7, 8] 0 1) =
       map sample_builder [7, 8]
   \<and> set (map id' (attempt_requests sample_uuid sample_builder [7, 8] 0 0)) \<inter>
     set (map id' (attempt_requests sample_uuid sample_builder [7, 8] 0 1)) = {}"
proof -
  have run: "posted (snd (processSingleBatchWithRetry (always_limited None) sample_uuid
                     (sample_options\<lparr>maxRetries := 2\<rparr>) [7, 8] sample_builder 1 start)) =
       map (attempt_requests sample_uuid sample_builder [7, 8] 0) [0..<2]"
    by (simp add: processSingleBatchWithRetry.simps always_limited_def too_many_requests_def
          sample_options_def start_def attempt_requests_def upt_rec [of _ "numeral _"] Let_def)
  show ?thesis
    using inj_sample_uuid run
      every_attempt_rebuilds_its_requests [where uuid = sample_uuid and requestBuilder = sample_builder
        and items = "[7, 8]" and first = 0 and client = "always_limited None"
        and opts = "sample_options\<lparr>maxRetries := 2\<rparr>" and attempt = 1 and s = start]
    by (metis zero_neq_one)
qed

theorem retry_sends_new_ids_counterexample:
  "map (map id') (posted (snd (processSingleBatchWithRetry (always_limited None) sample_uuid
                     (sample_options\<lparr>maxRetries := 2\<rparr>) [7, 8] sample_builder 1 start))) =
     [[''id-'', ''id-x''], [''id-xx'', ''id-xxx'']]"
  by (simp add: processSingleBatchWithRetry.simps always_limited_def too_many_requests_def
        sample_options_def start_def sample_uuid_def with_id_def Let_def)



text \<open>
  C9, as the code has it. \<open>chunkArray\<close> checks nothing and signals no error for any size.
  For every size \<open>> 0\<close> and every item sequence it returns: the groups are contiguous, in
  order, each of exactly \<open>size\<close> items but the last, which holds the remaining \<open>1..size\<close>
  items. For a size \<open>\<le> 0\<close> it returns no groups on an empty sequence, and on a non-empty
  sequence its loop never ends. The counterexample shows both, and what \<open>processBatch\<close> does
  with a batch size of \<open>0\<close>: an empty result for no items, no return for one item.
\<close>

theorem chunkArray_validates_nothing:
  "(0 < n \<longrightarrow>
      (\<exists>chunks. chunkArray xs n = Some chunks
         \<and> concat chunks = xs
         \<and> (\<forall>c \<in> set (butlast chunks). int (length c) = n)
         \<and> (chunks \<noteq> [] \<longrightarrow> 0 < length (last chunks) \<and> int (length (last chunks)) \<le> n)))
   \<and> (n \<le> 0 \<and> xs = [] \<longrightarrow> chunkArray xs n = Some [])
   \<and> (n \<le> 0 \<and> xs \<noteq> [] \<longrightarrow> chunkArray xs n = None)"
proof (intro conjI impI)
  assume "0 < n"
  then show "\<exists>chunks. chunkArray xs n = Some chunks
         \<and> concat chunks = xs
         \<and> (\<forall>c \<in> set (butlast chunks). int (length c) = n)
         \<and> (chunks \<noteq> [] \<longrightarrow> 0 < length (last chunks) \<and> int (length (last chunks)) \<le> n)"
    by (rule chunkArray_positive)
next
  assume "n \<le> 0 \<and> xs = []"
  then show "chunkArray xs n = Some []"
    by (simp add: chunkArray_empty)
next
  assume "n \<le> 0 \<and> xs \<noteq> []"
  then show "chunkArray xs n = None"
    by (simp add: chunkArray_never_returns)
qed

theorem chunkArray_validates_nothing_witness:
  "(0 :: int) < 2
   \<and> chunkArray [7, 8, 9 :: nat] 2 = Some [[7, 8], [9]]
   \<and> concat [[7, 8], [9 :: nat]] = [7, 8, 9]
   \<and> (0 :: int) \<le> 0
   \<and> chunkArray ([] :: nat list) 0 = Some []
   \<and> chunkArray [7 :: nat] 0 = None"
  using chunkArray_validates_nothing [of 2 "[7, 8, 9 :: nat]"]
    chunkArray_validates_nothing [of 0 "[] :: nat list"]
    chunkArray_validates_nothing [of 0 "[7 :: nat]"] chunk_7_8_9
  by simp

theorem no_configuration_error_counterexample:
  "chunkArray ([] :: nat list) 0 = Some []
   \<and> chunkArray [7 :: nat] 0 = None
   \<and> chunkArray [7 :: nat] (- 1) = None
   \<and> processBatch always_down sample_uuid (sample_options\<lparr>batchSize := 0\<rparr>) ([] :: nat list)
         sample_builder start = Some (\<lparr>successful = [], failed = []\<rparr>, start)
   \<and> processBatch always_down sample_uuid (sample_options\<lparr>batchSize := 0\<rparr>) [7 :: nat]
         sample_builder start = None"
  by (simp add: chunkArray_empty chunkArray_never_returns processBatch_def sample_options_def)

text \<open>
  C10. \<open>processBatch\<close> takes the groups one at a time in chunk order: each group is run
  to its end, retries included, in the world the previous group left, before the next
  group's first request is built. So the result's \<open>successful\<close> list is the concatenation of
  the groups' \<open>successful\<close> lists in group order, likewise \<open>failed\<close>, and the posts of the
  whole run are the groups' posts one group after the other.
\<close>

theorem groups_run_one_at_a_time_in_chunk_order:
  fixes client :: client
  assumes "0 < batchSize opts"
  shows "\<exists>batches. chunkArray requests (batchSize opts) = Some batches
     \<and> processBatch client uuid opts requests requestBuilder s =
         Some (\<lparr>successful = concat (map (successful \<circ> fst)
                               (fst (groups_in_order client uuid opts requestBuilder batches s))),
                failed = concat (map (failed \<circ> fst)
                               (fst (groups_in_order client uuid opts requestBuilder batches s)))\<rparr>,
               snd (groups_in_order client uuid opts requestBuilder batches s))
     \<and> posted (snd (groups_in_order client uuid opts requestBuilder batches s)) =
         posted s @ concat (map snd (fst (groups_in_order client uuid opts requestBuilder batches s)))"
proof -
  from chunkArray_positive [OF assms, of requests]
  obtain batches where b: "chunkArray requests (batchSize opts) = Some batches"
    by blast
  have "processBatch client uuid opts requests requestBuilder s =
         Some (\<lparr>successful = concat (map (successful \<circ> fst)
                               (fst (groups_in_order client uuid opts requestBuilder batches s))),
                failed = concat (map (failed \<circ> fst)
                               (fst (groups_in_order client uuid opts requestBuilder batches s)))\<rparr>,
               snd (groups_in_order client uuid opts requestBuilder batches s))"
    by (simp add: processBatch_def b run_batches_groups)
  with b groups_posted [of client uuid opts requestBuilder batches s] show ?thesis
    by blast
qed

theorem groups_run_one_at_a_time_in_chunk_order_witness:
  "0 < batchSize sample_options
   \<and> chunkArray [7, 8, 9 :: nat] (batchSize sample_options) = Some [[7, 8], [9]]
   \<and> groups_in_order graph_service sample_uuid sample_options sample_builder [[7, 8], [9]] start =
       ([(\<lparr>successful = [(Some 7, JObj [(''displayName'', JStr ''Ada'')])],
            failed = [(Some 8, JStr ''not found'')]\<rparr>,
          [[with_id ''id-'' (sample_builder 7), with_id ''id-x'' (sample_builder 8)],
           [with_id ''id-xx'' (sample_builder 7), with_id ''id-xxx'' (sample_builder 8)]]),
         (\<lparr>successful = [(Some 9, JObj [(''displayName'', JStr ''Ada'')])], failed = []\<rparr>,
          [[with_id ''id-xxxx'' (sample_builder 9)]])],
        after_second_group)
   \<and> processBatch graph_service sample_uuid sample_options [7, 8, 9] sample_builder start =
       Some (\<lparr>successful = [(Some 7, JObj [(''displayName'', JStr ''Ada'')]),
                            (Some 9, JObj [(''displayName'', JStr ''Ada'')])],
              failed = [(Some 8, JStr ''not found'')]\<rparr>,
             after_second_group)"
proof -
  have h: "0 < batchSize sample_options"
    by (simp add: sample_options_def)
  have c: "chunkArray [7, 8, 9 :: nat] (batchSize sample_options) = Some [[7, 8], [9]]"
    using chunk_7_8_9 by (simp add: sample_options_def)
  have g: "groups_in_order graph_service sample_uuid sample_options sample_builder [[7, 8], [9]] start =
       ([(\<lparr>successful = [(Some 7, JObj [(''displayName'', JStr ''Ada'')])],
            failed = [(Some 8, JStr ''not found'')]\<rparr>,
          [[with_id ''id-'' (sample_builder 7), with_id ''id-x'' (sample_builder 8)],
           [with_id ''id-xx'' (sample_builder 7), with_id ''id-xxx'' (sample_builder 8)]]),
         (\<lparr>successful = [(Some 9, JObj [(''displayName'', JStr ''Ada'')])], failed = []\<rparr>,
          [[with_id ''id-xxxx'' (sample_builder 9)]])],
        after_second_group)"
    by (simp add: Let_def sample_first_group sample_second_group start_def [symmetric])
       (simp add: start_def after_first_group_def after_second_group_def)
  from groups_run_one_at_a_time_in_chunk_order [where client = graph_service and opts = sample_options
        and uuid = sample_uuid and requests = "[7, 8, 9]" and requestBuilder = sample_builder
        and s = start, OF h]
  obtain batches where "chunkArray [7, 8, 9 :: nat] (batchSize sample_options) = Some batches"
    and run: "processBatch graph_service sample_uuid sample_options [7, 8, 9] sample_builder start =
         Some (\<lparr>successful = concat (map (successful \<circ> fst)
                   (fst (groups_in_order graph_service sample_uuid sample_options sample_builder batches start))),
                failed = concat (map (failed \<circ> fst)
                   (fst (groups_in_order graph_service sample_uuid sample_options sample_builder batches start)))\<rparr>,
               snd (groups_in_order graph_service sample_uuid sample_options sample_builder batches start))"
    by blast
  with c have batches: "batches = [[7, 8], [9]]" by simp
  from run have "processBatch graph_service sample_uuid sample_options [7, 8, 9] sample_builder start =
       Some (\<lparr>successful = [(Some 7, JObj [(''displayName'', JStr ''Ada'')]),
                            (Some 9, JObj [(''displayName'', JStr ''Ada'')])],
              failed = [(Some 8, JStr ''not found'')]\<rparr>,
             after_second_group)"
    unfolding batches g by simp
  with h c g show ?thesis by blast
qed

end
